theory Spec2Isabelle
  imports Main "HOL-Library.Sublist" "HOL-Library.AList"
begin

section \<open>Python values, exceptions and arithmetic\<close>

text \<open>
  The key of a failed dictionary lookup: a string (the solver name), a vertex or an arc.
\<close>

datatype pykey = KStr string | KInt int | KPair int int

text \<open>
  Every exception the module can raise is a value. \<open>ValueError\<close> carries the message of
  \<^verbatim>\<open>kmst.py\<close> where the module raises it itself, and a short tag where a Python builtin
  does (\<^verbatim>\<open>int()\<close>, tuple unpacking).
\<close>

datatype error =
    ValueError string
  | KeyError pykey
  | TypeError string
  | IndexError
  | FileNotFoundError string
  | NetworkXPointlessConcept

definition ebind :: "error + 'a \<Rightarrow> ('a \<Rightarrow> error + 'b) \<Rightarrow> error + 'b" where
  "ebind r g = (case r of Inl e \<Rightarrow> Inl e | Inr v \<Rightarrow> g v)"

text \<open>
  \<^verbatim>\<open>ceil(n / d)\<close> of \<^verbatim>\<open>load_instances\<close> for a positive literal \<open>d\<close>.
  Python divides the two integers into a double and rounds that up; for
  \<open>\<bar>n\<bar> < 2 ^ 52\<close> the double lies strictly between the same two integers as the exact
  quotient, so the result is the exact ceiling, which is what is written here. A larger
  \<open>n\<close> does not reach these lines: \<^verbatim>\<open>load_instance\<close> builds the set \<open>{0, \<dots>, n}\<close> first.
\<close>

definition ceil_div :: "int \<Rightarrow> int \<Rightarrow> int" where
  "ceil_div n d = - ((- n) div d)"

text \<open>\<^verbatim>\<open>str\<close> of an integer, for the f-strings that name the solver's variables.\<close>

definition digit_char :: "nat \<Rightarrow> char" where
  "digit_char d = ''0123456789'' ! d"

fun str_nat :: "nat \<Rightarrow> string" where
  "str_nat n = (if n < 10 then [digit_char n] else str_nat (n div 10) @ [digit_char (n mod 10)])"

declare str_nat.simps [simp del]

definition str_int :: "int \<Rightarrow> string" where
  "str_int i = (if i < 0 then CHR ''-'' # str_nat (nat (- i)) else str_nat (nat i))"

text \<open>
  \<^verbatim>\<open>int(s)\<close> on a string: surrounding whitespace is dropped, one sign is allowed, and the
  rest must be decimal digits, single underscores allowed between two digits. Characters
  are bytes here, so the digits and spaces beyond ASCII that Python also accepts are left
  out.
\<close>

definition is_space :: "char \<Rightarrow> bool" where
  "is_space c = (c \<in> set [CHR '' '', CHR 0x09, CHR 0x0A, CHR 0x0B, CHR 0x0C, CHR 0x0D,
                           CHR 0x1C, CHR 0x1D, CHR 0x1E, CHR 0x1F])"

definition is_digit :: "char \<Rightarrow> bool" where
  "is_digit c = (c \<in> set ''0123456789'')"

definition digit_val :: "char \<Rightarrow> int" where
  "digit_val c = int (of_char c) - 48"

definition strip :: "string \<Rightarrow> string" where
  "strip s = rev (dropWhile is_space (rev (dropWhile is_space s)))"

fun digits_ok :: "string \<Rightarrow> bool" where
  "digits_ok [] = False"
| "digits_ok [c] = is_digit c"
| "digits_ok (c # d # cs) =
     (is_digit c \<and> (if d = CHR ''_'' then digits_ok cs else digits_ok (d # cs)))"

definition digits_value :: "string \<Rightarrow> int" where
  "digits_value s = foldl (\<lambda>acc c. 10 * acc + digit_val c) 0 (filter is_digit s)"

definition py_int :: "string \<Rightarrow> error + int" where
  "py_int s =
     (let t = strip s;
          (neg, ds) = (case t of
                         c # cs \<Rightarrow> if c = CHR ''-'' then (True, cs)
                                   else if c = CHR ''+'' then (False, cs)
                                   else (False, t)
                       | [] \<Rightarrow> (False, t))
      in if digits_ok ds then Inr (if neg then - digits_value ds else digits_value ds)
         else Inl (ValueError ''invalid literal for int()''))"

text \<open>\<^verbatim>\<open>line.split()\<close>: the maximal runs of characters that are not whitespace.\<close>

fun split_ws :: "string \<Rightarrow> string \<Rightarrow> string list" where
  "split_ws cur [] = (if cur = [] then [] else [cur])"
| "split_ws cur (c # cs) =
     (if is_space c then (if cur = [] then split_ws [] cs else cur # split_ws [] cs)
      else split_ws (cur @ [c]) cs)"

definition py_split :: "string \<Rightarrow> string list" where
  "py_split line = split_ws [] line"

text \<open>
  A Python \<^verbatim>\<open>set\<close> is a list without repetition, in iteration order; \<^verbatim>\<open>s.add(e)\<close>
  leaves a set that has \<open>e\<close> as it is.
\<close>

definition set_add :: "'a \<Rightarrow> 'a list \<Rightarrow> 'a list" where
  "set_add e s = (if e \<in> set s then s else s @ [e])"

text \<open>
  Subscription \<^verbatim>\<open>d[key]\<close> of an attribute that is \<^verbatim>\<open>None\<close> or a dictionary.
\<close>

definition getitem :: "('k \<rightharpoonup> 'v) option \<Rightarrow> 'k \<Rightarrow> pykey \<Rightarrow> error + 'v" where
  "getitem d key shown =
     (case d of
        None \<Rightarrow> Inl (TypeError ''NoneType object is not subscriptable'')
      | Some mp \<Rightarrow> (case mp key of None \<Rightarrow> Inl (KeyError shown) | Some v \<Rightarrow> Inr v))"

section \<open>The MILP solver object\<close>

text \<open>
  The solver is the external engine behind \<^verbatim>\<open>pywraplp.Solver\<close>. Its model is the list of
  variables made so far, the list of constraints added so far and the objective; a
  variable handle is the position of the variable in that list. Linear expressions are
  the terms that the Python operators build; \<open>lin_value\<close> gives them their meaning under
  an assignment of values to the variables.
\<close>

type_synonym var = nat

record mpvariable =
  var_lb :: int
  var_ub :: int
  var_integer :: bool
  var_name :: string

datatype linexpr =
    LNum int
  | LVar var
  | LAdd linexpr linexpr
  | LSub linexpr linexpr
  | LMul linexpr linexpr

datatype constraint = CEq linexpr linexpr | CLe linexpr linexpr

datatype status =
  OPTIMAL | FEASIBLE | INFEASIBLE | UNBOUNDED | ABNORMAL | MODEL_INVALID | NOT_SOLVED

record solver =
  solver_id :: string
  variables :: "mpvariable list"
  constraints :: "constraint list"
  objective :: "linexpr option"
  solution :: "var \<Rightarrow> int"

fun lin_value :: "(var \<Rightarrow> int) \<Rightarrow> linexpr \<Rightarrow> int" where
  "lin_value \<sigma> (LNum c) = c"
| "lin_value \<sigma> (LVar v) = \<sigma> v"
| "lin_value \<sigma> (LAdd a b) = lin_value \<sigma> a + lin_value \<sigma> b"
| "lin_value \<sigma> (LSub a b) = lin_value \<sigma> a - lin_value \<sigma> b"
| "lin_value \<sigma> (LMul a b) = lin_value \<sigma> a * lin_value \<sigma> b"

fun satisfies :: "(var \<Rightarrow> int) \<Rightarrow> constraint \<Rightarrow> bool" where
  "satisfies \<sigma> (CEq a b) = (lin_value \<sigma> a = lin_value \<sigma> b)"
| "satisfies \<sigma> (CLe a b) = (lin_value \<sigma> a \<le> lin_value \<sigma> b)"

definition CreateSolver :: "string \<Rightarrow> solver" where
  "CreateSolver ident =
     \<lparr>solver_id = ident, variables = [], constraints = [], objective = None,
      solution = (\<lambda>_. 0)\<rparr>"

definition IntVar :: "int \<Rightarrow> int \<Rightarrow> string \<Rightarrow> solver \<Rightarrow> var \<times> solver" where
  "IntVar lb ub nm s =
     (length (variables s),
      s\<lparr>variables := variables s @
           [\<lparr>var_lb = lb, var_ub = ub, var_integer = True, var_name = nm\<rparr>]\<rparr>)"

definition Add :: "constraint \<Rightarrow> solver \<Rightarrow> solver" where
  "Add c s = s\<lparr>constraints := constraints s @ [c]\<rparr>"

definition Minimize :: "linexpr \<Rightarrow> solver \<Rightarrow> solver" where
  "Minimize e s = s\<lparr>objective := Some e\<rparr>"

definition objective_value :: "solver \<Rightarrow> int" where
  "objective_value s = (case objective s of None \<Rightarrow> 0 | Some e \<Rightarrow> lin_value (solution s) e)"

section \<open>Graph instances\<close>

text \<open>
  The fields of an \<^verbatim>\<open>Instance\<close> object. The module reads \<^verbatim>\<open>name\<close>, \<^verbatim>\<open>n\<close>, \<^verbatim>\<open>m\<close>,
  \<^verbatim>\<open>V\<close>, \<^verbatim>\<open>E\<close>, \<^verbatim>\<open>A\<close>, \<^verbatim>\<open>weights\<close> and \<^verbatim>\<open>k\<close>; the sets are lists in iteration order.
\<close>

record Instance =
  inst_name :: string
  inst_n :: int
  inst_m :: int
  inst_V :: "int list"
  inst_E :: "(int \<times> int) list"
  inst_A :: "(int \<times> int) list"
  inst_weights :: "int \<times> int \<rightharpoonup> int"
  inst_k :: int

text \<open>
  Modelled from the spec: the class \<^verbatim>\<open>Instance\<close> of \<^verbatim>\<open>src_kmst/utils.py\<close> is not among
  the sources. Its constructor keeps the six arguments that \<^verbatim>\<open>load_instance\<close> passes and
  derives \<^verbatim>\<open>A\<close> as the two orientations of every edge in \<^verbatim>\<open>E\<close>. The value of \<^verbatim>\<open>k\<close> that
  it leaves behind is never read: \<^verbatim>\<open>load_instances\<close> assigns \<^verbatim>\<open>k\<close> first.
\<close>

definition orientations :: "(int \<times> int) list \<Rightarrow> (int \<times> int) list" where
  "orientations es = remdups (concat (map (\<lambda>(i, j). [(i, j), (j, i)]) es))"

definition Instance_init ::
  "string \<Rightarrow> int \<Rightarrow> int \<Rightarrow> int list \<Rightarrow> (int \<times> int) list \<Rightarrow> (int \<times> int \<rightharpoonup> int) \<Rightarrow> Instance"
where
  "Instance_init nm n m Vs Es ws =
     \<lparr>inst_name = nm, inst_n = n, inst_m = m, inst_V = Vs, inst_E = Es,
      inst_A = orientations Es, inst_weights = ws, inst_k = 0\<rparr>"

text \<open>
  The invariant of the data model: the three sets have no repeated element, \<^verbatim>\<open>A\<close> is
  exactly the two orientations of \<^verbatim>\<open>E\<close>, both ends of every arc are vertices, and every
  arc has a weight.
\<close>

definition wf_instance :: "Instance \<Rightarrow> bool" where
  "wf_instance inst =
     (distinct (inst_V inst) \<and> distinct (inst_E inst) \<and> distinct (inst_A inst) \<and>
      set (inst_A inst) = set (inst_E inst) \<union> (set (inst_E inst))\<inverse> \<and>
      (\<forall>(i, j) \<in> set (inst_A inst). i \<in> set (inst_V inst) \<and> j \<in> set (inst_V inst)) \<and>
      set (inst_A inst) \<subseteq> dom (inst_weights inst))"

section \<open>The object store\<close>

text \<open>
  \<^verbatim>\<open>Instance\<close> objects live in a store; an address is a position in it. The dictionary
  \<^verbatim>\<open>self.instances\<close> holds addresses, so that two names bound to one object would see
  each other's attribute assignments. \<^verbatim>\<open>copy(obj)\<close> makes a new object with the same
  attribute values.
\<close>

type_synonym addr = nat

definition alloc :: "Instance \<Rightarrow> Instance list \<Rightarrow> addr \<times> Instance list" where
  "alloc obj h = (length h, h @ [obj])"

definition copy :: "addr \<Rightarrow> Instance list \<Rightarrow> addr \<times> Instance list" where
  "copy a h = alloc (h ! a) h"

definition set_k :: "addr \<Rightarrow> int \<Rightarrow> Instance list \<Rightarrow> Instance list" where
  "set_k a kv h = h[a := (h ! a)\<lparr>inst_k := kv\<rparr>]"

section \<open>The class KMST\<close>

text \<open>What the module prints, one value for each \<^verbatim>\<open>print\<close> call.\<close>

datatype out_line =
    PRunning string
  | PSolved string int
  | PNotSolved string status
  | PValidating
  | PInstance_n int
  | PInstance_m int
  | PInstance_k int
  | PNodes "int list"
  | PEdges "(int \<times> int) list"
  | PIsTree bool
  | PIsConnected bool
  | PUValues "(int \<times> int) list"
  | PEndValidation

record config =
  cfg_instances :: "string list"
  cfg_formulation :: string
  cfg_solver :: string
  cfg_data_path :: string

text \<open>
  The attributes of a \<^verbatim>\<open>KMST\<close> object, with the object store and the console next to
  them. \<^verbatim>\<open>self.x\<close>, \<^verbatim>\<open>self.u\<close> and \<^verbatim>\<open>self.f\<close> are \<^verbatim>\<open>None\<close> until
  \<^verbatim>\<open>define_variables\<close> runs.
\<close>

record kmst =
  instance_names :: "string list"
  formulation :: string
  solver_name :: string
  data_path :: string
  instances :: "(string \<times> addr) list"
  solver :: solver
  self_x :: "(int \<times> int \<rightharpoonup> var) option"
  self_u :: "(int \<rightharpoonup> var) option"
  self_f :: "(int \<times> int \<rightharpoonup> var) option"
  heap :: "Instance list"
  stdout :: "out_line list"

text \<open>
  What the module takes from outside: the data files (a path gives the lines that
  \<^verbatim>\<open>readlines\<close> returns) and the engine behind \<^verbatim>\<open>Solve\<close>, which maps the model to a
  status and a value for every variable.
\<close>

record env =
  env_files :: "string \<rightharpoonup> string list"
  env_Solve :: "solver \<Rightarrow> status \<times> (var \<Rightarrow> int)"

definition solvers_map :: "string \<rightharpoonup> string" where
  "solvers_map = [''ortools'' \<mapsto> ''SCIP'', ''gurobi'' \<mapsto> ''GUROBI'']"

definition KMST_init :: "config \<Rightarrow> error + kmst" where
  "KMST_init cfg =
     (case solvers_map (cfg_solver cfg) of
        None \<Rightarrow> Inl (KeyError (KStr (cfg_solver cfg)))
      | Some ident \<Rightarrow>
          Inr \<lparr>instance_names = cfg_instances cfg, formulation = cfg_formulation cfg,
               solver_name = cfg_solver cfg, data_path = cfg_data_path cfg,
               instances = [], solver = CreateSolver ident,
               self_x = None, self_u = None, self_f = None,
               heap = [], stdout = []\<rparr>)"

subsection \<open>Loading\<close>

text \<open>The loop over \<^verbatim>\<open>lines[2:]\<close> of \<^verbatim>\<open>load_instance\<close>, on \<^verbatim>\<open>Eext\<close> and \<^verbatim>\<open>weights\<close>.\<close>

fun read_edges ::
  "string list \<Rightarrow> (int \<times> int) list \<times> (int \<times> int \<rightharpoonup> int) \<Rightarrow>
   error + (int \<times> int) list \<times> (int \<times> int \<rightharpoonup> int)"
where
  "read_edges [] (Eext, weights) = Inr (Eext, weights)"
| "read_edges (line # lines) (Eext, weights) =
     (if length line \<le> 1 then read_edges lines (Eext, weights)
      else case py_split line of
        [_, a, b, w] \<Rightarrow>
          ebind (py_int a) (\<lambda>ia. ebind (py_int b) (\<lambda>ib. ebind (py_int w) (\<lambda>iw.
            read_edges lines (set_add (ia, ib) Eext, weights((ia, ib) \<mapsto> iw)))))
      | _ \<Rightarrow> Inl (ValueError ''unpack''))"

definition load_instance :: "env \<Rightarrow> kmst \<Rightarrow> string \<Rightarrow> error + Instance" where
  "load_instance ev st instance_name =
     (let instance_string =
            (if length instance_name = 2 then instance_name else CHR ''0'' # instance_name);
          path = data_path st @ ''/g'' @ instance_string @ ''.dat''
      in case env_files ev path of
           None \<Rightarrow> Inl (FileNotFoundError path)
         | Some lines \<Rightarrow>
             (case lines of
                [] \<Rightarrow> Inl IndexError
              | l0 # rest \<Rightarrow>
                  ebind (py_int l0) (\<lambda>i0.
                    (case rest of
                       [] \<Rightarrow> Inl IndexError
                     | l1 # _ \<Rightarrow>
                         ebind (py_int l1) (\<lambda>i1.
                           let n = i0 - 1; m = i1 - 1; Vext = [0..n] in
                           ebind (read_edges (drop 2 lines) ([], Map.empty))
                             (\<lambda>(Eext, weights).
                                Inr (Instance_init (''instance_'' @ instance_string)
                                       n m Vext Eext weights)))))))"

text \<open>The body of the loop of \<^verbatim>\<open>load_instances\<close>, for one name.\<close>

definition load_pair :: "env \<Rightarrow> string \<Rightarrow> kmst \<Rightarrow> error + kmst" where
  "load_pair ev instance_name st =
     ebind (load_instance ev st instance_name) (\<lambda>obj.
       let (instance_0, h1) = alloc obj (heap st);
           h2 = set_k instance_0 (ceil_div (inst_n (h1 ! instance_0)) 5) h1;
           d1 = AList.update (instance_name @ ''_0'') instance_0 (instances st);
           (instance_1, h3) = copy instance_0 h2;
           h4 = set_k instance_1 (ceil_div (inst_n (h3 ! instance_1)) 2) h3;
           d2 = AList.update (instance_name @ ''_1'') instance_1 d1
       in Inr (st\<lparr>instances := d2, heap := h4\<rparr>))"

fun load_loop :: "env \<Rightarrow> string list \<Rightarrow> kmst \<Rightarrow> error + kmst" where
  "load_loop ev [] st = Inr st"
| "load_loop ev (instance_name # names) st =
     ebind (load_pair ev instance_name st) (load_loop ev names)"

definition load_instances :: "env \<Rightarrow> kmst \<Rightarrow> error + kmst" where
  "load_instances ev st = load_loop ev (instance_names st) st"

subsection \<open>Variables\<close>

definition x_get :: "kmst \<Rightarrow> int \<times> int \<Rightarrow> error + var" where
  "x_get st e = getitem (self_x st) e (KPair (fst e) (snd e))"

definition u_get :: "kmst \<Rightarrow> int \<Rightarrow> error + var" where
  "u_get st v = getitem (self_u st) v (KInt v)"

definition weights_get :: "Instance \<Rightarrow> int \<times> int \<Rightarrow> error + int" where
  "weights_get inst e = getitem (Some (inst_weights inst)) e (KPair (fst e) (snd e))"

definition x_name :: "int \<Rightarrow> int \<Rightarrow> string" where
  "x_name a b = ''x_'' @ str_int a @ ''_'' @ str_int b"

definition u_name :: "int \<Rightarrow> string" where
  "u_name v = ''u_'' @ str_int v"

text \<open>The two loops of \<^verbatim>\<open>define_variables_mtz\<close>.\<close>

fun define_variables_mtz_x :: "(int \<times> int) list \<Rightarrow> kmst \<Rightarrow> error + kmst" where
  "define_variables_mtz_x [] st = Inr st"
| "define_variables_mtz_x ((a, b) # arcs) st =
     (let (h, s) = IntVar 0 1 (x_name a b) (solver st) in
      case self_x st of
        None \<Rightarrow> Inl (TypeError ''NoneType object does not support item assignment'')
      | Some xm \<Rightarrow>
          define_variables_mtz_x arcs (st\<lparr>solver := s, self_x := Some (xm((a, b) \<mapsto> h))\<rparr>))"

fun define_variables_mtz_u :: "int \<Rightarrow> int list \<Rightarrow> kmst \<Rightarrow> error + kmst" where
  "define_variables_mtz_u k [] st = Inr st"
| "define_variables_mtz_u k (v # vs) st =
     (let (h, s) = IntVar 1 k (u_name v) (solver st) in
      case self_u st of
        None \<Rightarrow> Inl (TypeError ''NoneType object does not support item assignment'')
      | Some um \<Rightarrow>
          define_variables_mtz_u k vs (st\<lparr>solver := s, self_u := Some (um(v \<mapsto> h))\<rparr>))"

definition define_variables_mtz :: "kmst \<Rightarrow> Instance \<Rightarrow> error + kmst" where
  "define_variables_mtz st inst =
     ebind (define_variables_mtz_x (inst_A inst) st)
       (define_variables_mtz_u (inst_k inst) (inst_V inst))"

definition define_variables_scf :: "kmst \<Rightarrow> Instance \<Rightarrow> error + kmst" where
  "define_variables_scf st inst = Inr st"

definition define_variables_mcf :: "kmst \<Rightarrow> Instance \<Rightarrow> error + kmst" where
  "define_variables_mcf st inst = Inr st"

definition define_variables :: "kmst \<Rightarrow> Instance \<Rightarrow> error + kmst" where
  "define_variables st inst =
     (let st0 = st\<lparr>self_x := Some Map.empty, self_u := Some Map.empty,
                   self_f := Some Map.empty\<rparr>
      in if formulation st0 = ''MTZ'' then define_variables_mtz st0 inst
         else if formulation st0 = ''SCF'' then define_variables_scf st0 inst
         else if formulation st0 = ''MCF'' then define_variables_mcf st0 inst
         else Inl (ValueError ''Formulation not recognized''))"

subsection \<open>Constraints\<close>

text \<open>
  \<^verbatim>\<open>sum(self.x[i, j] + self.x[j, i] for (i, j) in instance.E)\<close>: the builtin starts from
  0 and adds one term for each edge, in iteration order.
\<close>

fun sum_edges :: "kmst \<Rightarrow> linexpr \<Rightarrow> (int \<times> int) list \<Rightarrow> error + linexpr" where
  "sum_edges st acc [] = Inr acc"
| "sum_edges st acc ((i, j) # es) =
     ebind (x_get st (i, j)) (\<lambda>xij. ebind (x_get st (j, i)) (\<lambda>xji.
       sum_edges st (LAdd acc (LAdd (LVar xij) (LVar xji))) es))"

text \<open>The loop over \<^verbatim>\<open>instance.A\<close> of \<^verbatim>\<open>define_constraints_mtz\<close>.\<close>

fun add_arc_constraints :: "Instance \<Rightarrow> (int \<times> int) list \<Rightarrow> kmst \<Rightarrow> error + kmst" where
  "add_arc_constraints inst [] st = Inr st"
| "add_arc_constraints inst ((i, j) # arcs) st =
     ebind (x_get st (i, j)) (\<lambda>xij. ebind (x_get st (j, i)) (\<lambda>xji.
       let st1 = st\<lparr>solver := Add (CLe (LAdd (LVar xij) (LVar xji)) (LNum 1)) (solver st)\<rparr>
       in ebind (u_get st1 i) (\<lambda>ui. ebind (x_get st1 (i, j)) (\<lambda>xl.
            ebind (u_get st1 j) (\<lambda>uj. ebind (x_get st1 (i, j)) (\<lambda>xr.
              let st2 = st1\<lparr>solver :=
                          Add (CLe (LSub (LAdd (LVar ui) (LVar xl)) (LVar uj))
                                   (LMul (LNum (inst_k inst - 1)) (LSub (LNum 1) (LVar xr))))
                              (solver st1)\<rparr>
              in add_arc_constraints inst arcs st2))))))"

definition define_constraints_mtz :: "kmst \<Rightarrow> Instance \<Rightarrow> error + kmst" where
  "define_constraints_mtz st inst =
     ebind (sum_edges st (LNum 0) (inst_E inst)) (\<lambda>total.
       let st1 = st\<lparr>solver := Add (CEq total (LNum (inst_k inst - 1))) (solver st)\<rparr>
       in add_arc_constraints inst (inst_A inst) st1)"

definition define_constraints_scf :: "kmst \<Rightarrow> Instance \<Rightarrow> error + kmst" where
  "define_constraints_scf st inst = Inr st"

definition define_constraints_mcf :: "kmst \<Rightarrow> Instance \<Rightarrow> error + kmst" where
  "define_constraints_mcf st inst = Inr st"

definition define_constraints :: "kmst \<Rightarrow> Instance \<Rightarrow> error + kmst" where
  "define_constraints st inst =
     (if formulation st = ''MTZ'' then define_constraints_mtz st inst
      else if formulation st = ''SCF'' then define_constraints_scf st inst
      else if formulation st = ''MCF'' then define_constraints_mcf st inst
      else Inl (ValueError ''Formulation not recognized''))"

subsection \<open>Objective\<close>

text \<open>
  \<^verbatim>\<open>sum(self.x[e] * instance.weights[e] for e in \<dots>)\<close>, over \<^verbatim>\<open>instance.A\<close> under MTZ and
  over \<^verbatim>\<open>instance.E\<close> under SCF and MCF.
\<close>

fun sum_weighted :: "kmst \<Rightarrow> Instance \<Rightarrow> linexpr \<Rightarrow> (int \<times> int) list \<Rightarrow> error + linexpr" where
  "sum_weighted st inst acc [] = Inr acc"
| "sum_weighted st inst acc (e # es) =
     ebind (x_get st e) (\<lambda>xe. ebind (weights_get inst e) (\<lambda>w.
       sum_weighted st inst (LAdd acc (LMul (LVar xe) (LNum w))) es))"

definition define_objective :: "kmst \<Rightarrow> Instance \<Rightarrow> error + kmst" where
  "define_objective st inst =
     (if formulation st = ''MTZ'' then
        ebind (sum_weighted st inst (LNum 0) (inst_A inst)) (\<lambda>total.
          Inr (st\<lparr>solver := Minimize total (solver st)\<rparr>))
      else if formulation st = ''SCF'' \<or> formulation st = ''MCF'' then
        ebind (sum_weighted st inst (LNum 0) (inst_E inst)) (\<lambda>total.
          Inr (st\<lparr>solver := Minimize total (solver st)\<rparr>))
      else Inl (ValueError ''Formulation not recognized''))"

subsection \<open>Solving and validating\<close>

definition print :: "out_line \<Rightarrow> kmst \<Rightarrow> kmst" where
  "print l st = st\<lparr>stdout := stdout st @ [l]\<rparr>"

definition Solve :: "env \<Rightarrow> solver \<Rightarrow> status \<times> solver" where
  "Solve ev s = (let (status, values) = env_Solve ev s in (status, s\<lparr>solution := values\<rparr>))"

definition solve :: "env \<Rightarrow> kmst \<Rightarrow> Instance \<Rightarrow> bool \<times> kmst" where
  "solve ev st inst =
     (let (status, s) = Solve ev (solver st); st1 = st\<lparr>solver := s\<rparr>
      in if status = OPTIMAL
         then (True, print (PSolved (inst_name inst) (objective_value s)) st1)
         else (False, print (PNotSolved (inst_name inst) status) st1))"

text \<open>
  The undirected graph of \<^verbatim>\<open>networkx\<close> that \<^verbatim>\<open>validate\<close> builds: nodes and edges in
  insertion order. \<^verbatim>\<open>is_connected\<close> and \<^verbatim>\<open>is_tree\<close> raise on a graph without nodes.
\<close>

record graph =
  g_nodes :: "int list"
  g_edges :: "(int \<times> int) list"

definition add_edge :: "int \<Rightarrow> int \<Rightarrow> graph \<Rightarrow> graph" where
  "add_edge i j G =
     \<lparr>g_nodes = set_add j (set_add i (g_nodes G)),
      g_edges = (if (i, j) \<in> set (g_edges G) \<or> (j, i) \<in> set (g_edges G) then g_edges G
                 else g_edges G @ [(i, j)])\<rparr>"

definition grow :: "(int \<times> int) list \<Rightarrow> int list \<Rightarrow> int list" where
  "grow es seen =
     remdups (seen @ concat (map (\<lambda>(a, b). (if a \<in> set seen then [b] else []) @
                                           (if b \<in> set seen then [a] else [])) es))"

definition is_connected :: "graph \<Rightarrow> error + bool" where
  "is_connected G =
     (case g_nodes G of
        [] \<Rightarrow> Inl NetworkXPointlessConcept
      | v # _ \<Rightarrow>
          Inr (set (g_nodes G) \<subseteq> set ((grow (g_edges G) ^^ length (g_nodes G)) [v])))"

definition is_tree :: "graph \<Rightarrow> error + bool" where
  "is_tree G =
     (if g_nodes G = [] then Inl NetworkXPointlessConcept
      else if int (length (g_nodes G)) - 1 = int (length (g_edges G))
           then is_connected G else Inr False)"

fun selected_arcs :: "kmst \<Rightarrow> (int \<times> int) list \<Rightarrow> graph \<Rightarrow> error + graph" where
  "selected_arcs st [] G = Inr G"
| "selected_arcs st ((i, j) # arcs) G =
     ebind (x_get st (i, j)) (\<lambda>xij.
       selected_arcs st arcs (if solution (solver st) xij = 1 then add_edge i j G else G))"

fun u_values :: "kmst \<Rightarrow> int list \<Rightarrow> error + (int \<times> int) list" where
  "u_values st [] = Inr []"
| "u_values st (v # vs) =
     ebind (u_get st v) (\<lambda>uv. ebind (u_values st vs) (\<lambda>rest.
       Inr ((v, solution (solver st) uv) # rest)))"

definition validate :: "kmst \<Rightarrow> Instance \<Rightarrow> error + kmst" where
  "validate st inst =
     (let st1 = print (PInstance_k (inst_k inst)) (print (PInstance_m (inst_m inst))
                  (print (PInstance_n (inst_n inst)) (print PValidating st)))
      in ebind (selected_arcs st1 (inst_A inst) \<lparr>g_nodes = [], g_edges = []\<rparr>) (\<lambda>G.
           let st2 = print (PEdges (g_edges G)) (print (PNodes (g_nodes G)) st1) in
           ebind (is_tree G) (\<lambda>t. let st3 = print (PIsTree t) st2 in
           ebind (is_connected G) (\<lambda>c. let st4 = print (PIsConnected c) st3 in
             if formulation st4 = ''MTZ'' then
               ebind (u_values st4 (g_nodes G)) (\<lambda>uvs.
                 Inr (print PEndValidation (print (PUValues uvs) st4)))
             else Inr (print PEndValidation st4)))))"

subsection \<open>The run\<close>

text \<open>The body of the loop of \<^verbatim>\<open>run\<close>, for one entry of \<^verbatim>\<open>self.instances\<close>.\<close>

definition run_instance :: "env \<Rightarrow> string \<times> addr \<Rightarrow> kmst \<Rightarrow> error + kmst" where
  "run_instance ev item st =
     (let instance_name = fst item; inst = heap st ! snd item;
          st0 = print (PRunning instance_name) st
      in ebind (define_variables st0 inst) (\<lambda>st1.
         ebind (define_constraints st1 inst) (\<lambda>st2.
         ebind (define_objective st2 inst) (\<lambda>st3.
           let (feasible, st4) = solve ev st3 inst in
           if feasible then validate st4 inst else Inr st4))))"

fun run_loop :: "env \<Rightarrow> (string \<times> addr) list \<Rightarrow> kmst \<Rightarrow> error + kmst" where
  "run_loop ev [] st = Inr st"
| "run_loop ev (item # items) st = ebind (run_instance ev item st) (run_loop ev items)"

definition run :: "env \<Rightarrow> kmst \<Rightarrow> error + kmst" where
  "run ev st = ebind (load_instances ev st) (\<lambda>st1. run_loop ev (instances st1) st1)"

definition main :: "env \<Rightarrow> config \<Rightarrow> error + kmst" where
  "main ev cfg = ebind (KMST_init cfg) (run ev)"

section \<open>Small scenarios\<close>

text \<open>
  A path on the vertices 0, 1, 2 with both orientations of each edge weighted and target
  size 2; a single edge on the vertices 0, 1 with target size 1; and a \<^verbatim>\<open>KMST\<close> object
  as \<^verbatim>\<open>__init__\<close> leaves it, for a given formulation tag and list of names.
\<close>

definition path3 :: Instance where
  "path3 =
     \<lparr>inst_name = ''instance_01'', inst_n = 2, inst_m = 2, inst_V = [0, 1, 2],
      inst_E = [(0, 1), (1, 2)], inst_A = [(0, 1), (1, 0), (1, 2), (2, 1)],
      inst_weights = [(0, 1) \<mapsto> 5, (1, 0) \<mapsto> 5, (1, 2) \<mapsto> 7, (2, 1) \<mapsto> 7],
      inst_k = 2\<rparr>"

definition edge2 :: Instance where
  "edge2 =
     \<lparr>inst_name = ''instance_01'', inst_n = 1, inst_m = 1, inst_V = [0, 1],
      inst_E = [(0, 1)], inst_A = [(0, 1), (1, 0)],
      inst_weights = [(0, 1) \<mapsto> 3, (1, 0) \<mapsto> 3], inst_k = 1\<rparr>"

definition fresh_kmst :: "string \<Rightarrow> string list \<Rightarrow> kmst" where
  "fresh_kmst tag names =
     \<lparr>instance_names = names, formulation = tag, solver_name = ''ortools'',
      data_path = ''data'', instances = [], solver = CreateSolver ''SCIP'',
      self_x = None, self_u = None, self_f = None, heap = [], stdout = []\<rparr>"

text \<open>
  The object once the single edge is loaded as the instance named \<open>01\<close>: two objects in
  the store, both with \<open>k = 1\<close>, since \<open>n = 1\<close>.
\<close>

definition loaded :: "string \<Rightarrow> kmst" where
  "loaded tag =
     (fresh_kmst tag [''01''])
       \<lparr>instances := [(''01_0'', 0), (''01_1'', 1)], heap := [edge2, edge2]\<rparr>"

text \<open>
  One data file, \<^verbatim>\<open>data/g01.dat\<close>, which lists both orientations of that edge, and an
  engine that reports a fixed status and the value 1 for the chosen variables, 0 for the
  others.
\<close>

definition nl :: string where
  "nl = [CHR 0x0A]"

definition g01 :: "string list" where
  "g01 = [''2'' @ nl, ''3'' @ nl, ''0 0 1 3'' @ nl, ''1 1 0 3'' @ nl]"

definition one_file :: "status \<Rightarrow> var list \<Rightarrow> env" where
  "one_file status chosen =
     \<lparr>env_files = [''data/g01.dat'' \<mapsto> g01],
      env_Solve = (\<lambda>s. (status, (\<lambda>v. if v \<in> set chosen then 1 else 0)))\<rparr>"

section \<open>Keeping the solver's model\<close>

text \<open>
  A later model keeps an earlier one when every variable and every constraint of the
  earlier model is still there, at the position it had.
\<close>

definition keeps :: "solver \<Rightarrow> solver \<Rightarrow> bool" where
  "keeps s s' = (prefix (variables s) (variables s') \<and> prefix (constraints s) (constraints s'))"

section \<open>Basic facts\<close>

lemma ebind_Inl [simp]: "ebind (Inl e) g = Inl e"
  by (simp add: ebind_def)

lemma ebind_Inr [simp]: "ebind (Inr v) g = g v"
  by (simp add: ebind_def)

lemma ebind_eq_Inr: "ebind r g = Inr y \<longleftrightarrow> (\<exists>v. r = Inr v \<and> g v = Inr y)"
  by (cases r) simp_all

section \<open>Sibling target sizes\<close>

lemma ceil_div_5_upper: "5 * ceil_div n 5 \<le> n + 4"
  unfolding ceil_div_def by presburger

lemma ceil_div_2_lower: "n \<le> 2 * ceil_div n 2"
  unfolding ceil_div_def by presburger

text \<open>
  C8, as stated: for every \<open>n \<ge> 2\<close> the two sibling target sizes \<open>ceil(n / 5)\<close> and
  \<open>ceil(n / 2)\<close> differ. At \<open>n = 2\<close> both are 1.
\<close>

theorem C8_siblings_coincide_at_two:
  "\<not> (\<forall>n \<ge> 2. ceil_div n 5 \<noteq> ceil_div n 2)"
proof
  assume "\<forall>n \<ge> 2. ceil_div n 5 \<noteq> ceil_div n 2"
  then have "ceil_div 2 5 \<noteq> ceil_div 2 2" by simp
  then show False by (simp add: ceil_div_def)
qed

text \<open>
  C8, amended: the two sibling target sizes differ for every \<open>n \<ge> 3\<close>, and among the
  vertex counts \<open>n \<ge> 0\<close> they coincide exactly for \<open>n \<in> {0, 1, 2}\<close>.
\<close>

theorem C8_siblings_differ_from_three:
  "(3 \<le> n \<longrightarrow> ceil_div n 5 \<noteq> ceil_div n 2) \<and>
   (0 \<le> n \<longrightarrow> (ceil_div n 5 = ceil_div n 2) = (n < 3))"
proof -
  have far: "ceil_div n 5 < ceil_div n 2" if "3 \<le> n"
  proof -
    have "5 * ceil_div n 5 \<le> n + 4" by (rule ceil_div_5_upper)
    moreover have "n \<le> 2 * ceil_div n 2" by (rule ceil_div_2_lower)
    ultimately show ?thesis using that by linarith
  qed
  have near: "ceil_div n 5 = ceil_div n 2" if "0 \<le> n" "n < 3"
  proof -
    from that have "n = 0 \<or> n = 1 \<or> n = 2" by linarith
    then show ?thesis by (auto simp: ceil_div_def)
  qed
  show ?thesis using far near by force
qed

theorem C8_siblings_differ_from_three_witness:
  "(3 \<le> (7::int) \<and> ceil_div 7 5 \<noteq> ceil_div 7 2) \<and>
   (0 \<le> (2::int) \<and> (ceil_div 2 5 = ceil_div 2 2) = ((2::int) < 3))"
  using C8_siblings_differ_from_three [of 7] C8_siblings_differ_from_three [of 2]
  by simp

section \<open>Dispatch on the formulation tag\<close>

text \<open>
  C4: for a formulation tag other than \<open>MTZ\<close>, \<open>SCF\<close> and \<open>MCF\<close>, each of
  \<^verbatim>\<open>define_variables\<close>, \<^verbatim>\<open>define_constraints\<close> and \<^verbatim>\<open>define_objective\<close> raises the
  error for an unknown formulation, which the module raises as
  \<^verbatim>\<open>ValueError('Formulation not recognized')\<close>, for every instance and every state.
\<close>

theorem C4_unknown_formulation_raises:
  assumes "formulation st \<notin> {''MTZ'', ''SCF'', ''MCF''}"
  shows "define_variables st inst = Inl (ValueError ''Formulation not recognized'') \<and>
         define_constraints st inst = Inl (ValueError ''Formulation not recognized'') \<and>
         define_objective st inst = Inl (ValueError ''Formulation not recognized'')"
  using assms by (simp add: define_variables_def define_constraints_def define_objective_def)

theorem C4_unknown_formulation_raises_witness:
  "formulation (fresh_kmst ''FOO'' []) \<notin> {''MTZ'', ''SCF'', ''MCF''} \<and>
   define_variables (fresh_kmst ''FOO'' []) path3 =
     Inl (ValueError ''Formulation not recognized'') \<and>
   define_constraints (fresh_kmst ''FOO'' []) path3 =
     Inl (ValueError ''Formulation not recognized'') \<and>
   define_objective (fresh_kmst ''FOO'' []) path3 =
     Inl (ValueError ''Formulation not recognized'')"
proof -
  have tag: "formulation (fresh_kmst ''FOO'' []) \<notin> {''MTZ'', ''SCF'', ''MCF''}"
    by (simp add: fresh_kmst_def)
  from C4_unknown_formulation_raises [OF tag, of path3] tag show ?thesis by simp
qed

text \<open>
  C10: under the tags \<open>SCF\<close> and \<open>MCF\<close>, \<^verbatim>\<open>define_variables\<close> only sets the three
  mappings \<open>x\<close>, \<open>u\<close>, \<open>f\<close> to empty dictionaries, \<^verbatim>\<open>define_constraints\<close> changes
  nothing, and \<^verbatim>\<open>define_objective\<close>, called next, raises \<open>KeyError\<close> with the first edge
  of \<open>E\<close> as its key on every instance whose \<open>E\<close> is not empty.
\<close>

theorem C10_flow_formulations_are_empty:
  assumes "formulation st = ''SCF'' \<or> formulation st = ''MCF''"
  shows "\<exists>st1. st1 = st\<lparr>self_x := Some Map.empty, self_u := Some Map.empty,
                         self_f := Some Map.empty\<rparr> \<and>
           define_variables st inst = Inr st1 \<and> solver st1 = solver st \<and>
           define_constraints st1 inst = Inr st1 \<and>
           (inst_E inst \<noteq> [] \<longrightarrow>
              define_objective st1 inst =
                Inl (KeyError (KPair (fst (hd (inst_E inst))) (snd (hd (inst_E inst))))))"
proof -
  define st1 where "st1 = st\<lparr>self_x := Some Map.empty, self_u := Some Map.empty,
                              self_f := Some Map.empty\<rparr>"
  have tag: "formulation st1 = ''SCF'' \<or> formulation st1 = ''MCF''"
    using assms by (simp add: st1_def)
  have vars: "define_variables st inst = Inr st1"
    using assms
    by (auto simp: define_variables_def define_variables_scf_def define_variables_mcf_def
                   st1_def)
  have cons: "define_constraints st1 inst = Inr st1"
    using tag
    by (auto simp: define_constraints_def define_constraints_scf_def
                   define_constraints_mcf_def)
  have obj: "define_objective st1 inst =
               Inl (KeyError (KPair (fst (hd (inst_E inst))) (snd (hd (inst_E inst)))))"
    if "inst_E inst \<noteq> []"
  proof -
    from that obtain e es where E: "inst_E inst = e # es" by (cases "inst_E inst") auto
    have "x_get st1 e = Inl (KeyError (KPair (fst e) (snd e)))"
      by (simp add: x_get_def getitem_def st1_def)
    then show ?thesis
      using tag by (auto simp: define_objective_def E)
  qed
  show ?thesis
    using vars cons obj by (intro exI [of _ st1]) (simp add: st1_def)
qed

theorem C10_flow_formulations_are_empty_witness:
  "(formulation (fresh_kmst ''SCF'' []) = ''SCF'' \<or>
    formulation (fresh_kmst ''SCF'' []) = ''MCF'') \<and> inst_E path3 \<noteq> [] \<and>
   (\<exists>st1. define_variables (fresh_kmst ''SCF'' []) path3 = Inr st1 \<and>
          solver st1 = solver (fresh_kmst ''SCF'' []) \<and>
          define_constraints st1 path3 = Inr st1 \<and>
          define_objective st1 path3 = Inl (KeyError (KPair 0 1)))"
proof -
  have tag: "formulation (fresh_kmst ''SCF'' []) = ''SCF'' \<or>
             formulation (fresh_kmst ''SCF'' []) = ''MCF''"
    by (simp add: fresh_kmst_def)
  have E: "inst_E path3 \<noteq> []" and hd: "hd (inst_E path3) = (0, 1)"
    by (simp_all add: path3_def)
  from C10_flow_formulations_are_empty [OF tag, of path3] E hd tag show ?thesis
    by auto
qed

section \<open>Cloning an instance\<close>

lemma copy_fresh: "copy a h = (length h, h @ [h ! a])"
  by (simp add: copy_def alloc_def)

lemma set_k_length [simp]: "length (set_k a kv h) = length h"
  by (simp add: set_k_def)

lemma set_k_other: "c \<noteq> a \<Longrightarrow> set_k a kv h ! c = h ! c"
  by (simp add: set_k_def)

lemma set_k_same: "a < length h \<Longrightarrow> set_k a kv h ! a = (h ! a)\<lparr>inst_k := kv\<rparr>"
  by (simp add: set_k_def)

text \<open>
  C7: \<^verbatim>\<open>copy\<close> of the object at address \<open>a\<close> followed by an assignment to the clone's
  \<^verbatim>\<open>k\<close> leaves the original object, and every other object of the store, as it was:
  its \<^verbatim>\<open>k\<close>, \<^verbatim>\<open>V\<close>, \<^verbatim>\<open>E\<close> and \<^verbatim>\<open>weights\<close> are unchanged. The clone is a new object that
  has the new \<^verbatim>\<open>k\<close> and the original's \<^verbatim>\<open>V\<close>, \<^verbatim>\<open>E\<close>, \<^verbatim>\<open>A\<close> and \<^verbatim>\<open>weights\<close>.
\<close>

theorem C7_clone_k_leaves_original:
  assumes "a < length h"
    and "copy a h = (b, h1)"
    and "h2 = set_k b kv h1"
  shows "b \<noteq> a \<and> h2 ! a = h ! a \<and> (\<forall>c < length h. h2 ! c = h ! c) \<and>
         inst_k (h2 ! a) = inst_k (h ! a) \<and> inst_V (h2 ! a) = inst_V (h ! a) \<and>
         inst_E (h2 ! a) = inst_E (h ! a) \<and> inst_weights (h2 ! a) = inst_weights (h ! a) \<and>
         h2 ! b = (h ! a)\<lparr>inst_k := kv\<rparr>"
proof -
  from assms(2) have b: "b = length h" and h1: "h1 = h @ [h ! a]"
    by (simp_all add: copy_fresh)
  have old: "h2 ! c = h ! c" if "c < length h" for c
    using that by (simp add: assms(3) b h1 set_k_other nth_append)
  have new: "h2 ! b = (h ! a)\<lparr>inst_k := kv\<rparr>"
    by (simp add: assms(3) b h1 set_k_same)
  from assms(1) b have "b \<noteq> a" by simp
  with old [OF assms(1)] old new show ?thesis by simp
qed

theorem C7_clone_k_leaves_original_witness:
  "(0::nat) < length [path3] \<and> copy 0 [path3] = (1, [path3, path3]) \<and>
   set_k 1 1 [path3, path3] ! 0 = path3 \<and> inst_k (set_k 1 1 [path3, path3] ! 0) = 2 \<and>
   inst_k (set_k 1 1 [path3, path3] ! 1) = 1"
proof -
  have len: "(0::nat) < length [path3]" by simp
  have cp: "copy 0 [path3] = (1, [path3, path3])" by (simp add: copy_fresh)
  from C7_clone_k_leaves_original [OF len cp refl, of 1] len cp show ?thesis
    by (simp add: path3_def)
qed

section \<open>The solver is shared and only grows\<close>

lemma keeps_refl [simp]: "keeps s s"
  by (simp add: keeps_def)

lemma keeps_trans: "keeps s1 s2 \<Longrightarrow> keeps s2 s3 \<Longrightarrow> keeps s1 s3"
proof -
  assume a: "keeps s1 s2" and b: "keeps s2 s3"
  from a b have "prefix (variables s1) (variables s3)"
    unfolding keeps_def by (metis prefix_order.trans)
  moreover from a b have "prefix (constraints s1) (constraints s3)"
    unfolding keeps_def by (metis prefix_order.trans)
  ultimately show ?thesis by (simp add: keeps_def)
qed

lemma keeps_IntVar: "keeps s (snd (IntVar lb ub nm s))"
  by (simp add: keeps_def IntVar_def)

lemma keeps_Add: "keeps s (Add c s)"
  by (simp add: keeps_def Add_def)

lemma keeps_Minimize: "keeps s (Minimize e s)"
  by (simp add: keeps_def Minimize_def)

lemma keeps_Solve: "keeps s (snd (Solve ev s))"
  by (simp add: keeps_def Solve_def split: prod.splits)

lemma solver_print [simp]: "solver (print l st) = solver st"
  by (simp add: print_def)

lemma define_variables_mtz_x_keeps:
  "define_variables_mtz_x arcs st = Inr st' \<Longrightarrow> keeps (solver st) (solver st')"
proof (induction arcs arbitrary: st)
  case Nil
  then show ?case by simp
next
  case (Cons e arcs)
  obtain a b where e: "e = (a, b)" by (cases e)
  from Cons.prems obtain xm where xm: "self_x st = Some xm"
    by (auto simp: e split: prod.splits option.splits)
  let ?mid = "st\<lparr>solver := snd (IntVar 0 1 (x_name a b) (solver st)),
                  self_x := Some (xm((a, b) \<mapsto> fst (IntVar 0 1 (x_name a b) (solver st))))\<rparr>"
  from Cons.prems have "define_variables_mtz_x arcs ?mid = Inr st'"
    by (simp add: e xm split: prod.splits)
  then have "keeps (solver ?mid) (solver st')" by (rule Cons.IH)
  moreover have "keeps (solver st) (solver ?mid)" by (simp add: keeps_IntVar)
  ultimately show ?case by (rule keeps_trans [rotated])
qed

lemma define_variables_mtz_u_keeps:
  "define_variables_mtz_u k vs st = Inr st' \<Longrightarrow> keeps (solver st) (solver st')"
proof (induction vs arbitrary: st)
  case Nil
  then show ?case by simp
next
  case (Cons v vs)
  from Cons.prems obtain um where um: "self_u st = Some um"
    by (auto split: prod.splits option.splits)
  let ?mid = "st\<lparr>solver := snd (IntVar 1 k (u_name v) (solver st)),
                  self_u := Some (um(v \<mapsto> fst (IntVar 1 k (u_name v) (solver st))))\<rparr>"
  from Cons.prems have "define_variables_mtz_u k vs ?mid = Inr st'"
    by (simp add: um split: prod.splits)
  then have "keeps (solver ?mid) (solver st')" by (rule Cons.IH)
  moreover have "keeps (solver st) (solver ?mid)" by (simp add: keeps_IntVar)
  ultimately show ?case by (rule keeps_trans [rotated])
qed

lemma define_variables_keeps:
  assumes "define_variables st inst = Inr st'"
  shows "keeps (solver st) (solver st')"
proof -
  let ?st0 = "st\<lparr>self_x := Some Map.empty, self_u := Some Map.empty, self_f := Some Map.empty\<rparr>"
  have s0: "solver ?st0 = solver st" by simp
  consider (mtz) "formulation st = ''MTZ''"
    | (flow) "formulation st \<noteq> ''MTZ''" "formulation st = ''SCF'' \<or> formulation st = ''MCF''"
    | (other) "formulation st \<notin> {''MTZ'', ''SCF'', ''MCF''}"
    by auto
  then show ?thesis
  proof cases
    case mtz
    with assms have "define_variables_mtz ?st0 inst = Inr st'"
      by (simp add: define_variables_def)
    then obtain mid where x: "define_variables_mtz_x (inst_A inst) ?st0 = Inr mid"
      and u: "define_variables_mtz_u (inst_k inst) (inst_V inst) mid = Inr st'"
      by (auto simp: define_variables_mtz_def ebind_eq_Inr)
    from define_variables_mtz_x_keeps [OF x] define_variables_mtz_u_keeps [OF u]
    show ?thesis by (auto intro: keeps_trans)
  next
    case flow
    with assms have "st' = ?st0"
      by (auto simp: define_variables_def define_variables_scf_def define_variables_mcf_def)
    then show ?thesis by simp
  next
    case other
    with assms show ?thesis by (simp add: define_variables_def)
  qed
qed

lemma x_get_solver [simp]: "x_get (st\<lparr>solver := s\<rparr>) e = x_get st e"
  by (simp add: x_get_def)

lemma u_get_solver [simp]: "u_get (st\<lparr>solver := s\<rparr>) v = u_get st v"
  by (simp add: u_get_def)

lemma add_arc_constraints_keeps:
  "add_arc_constraints inst arcs st = Inr st' \<Longrightarrow> keeps (solver st) (solver st')"
proof (induction arcs arbitrary: st)
  case Nil
  then show ?case by simp
next
  case (Cons e arcs)
  obtain i j where e: "e = (i, j)" by (cases e)
  from Cons.prems obtain xij xji ui uj where
    mid: "add_arc_constraints inst arcs
            (st\<lparr>solver :=
                 Add (CLe (LSub (LAdd (LVar ui) (LVar xij)) (LVar uj))
                          (LMul (LNum (inst_k inst - 1)) (LSub (LNum 1) (LVar xij))))
                   (Add (CLe (LAdd (LVar xij) (LVar xji)) (LNum 1)) (solver st))\<rparr>) = Inr st'"
    by (auto simp: e ebind_eq_Inr Let_def)
  have "keeps (solver st) (Add (CLe (LSub (LAdd (LVar ui) (LVar xij)) (LVar uj))
                          (LMul (LNum (inst_k inst - 1)) (LSub (LNum 1) (LVar xij))))
                   (Add (CLe (LAdd (LVar xij) (LVar xji)) (LNum 1)) (solver st)))"
    by (meson keeps_Add keeps_trans)
  with Cons.IH [OF mid] show ?case by (simp add: keeps_trans)
qed

lemma define_constraints_keeps:
  assumes "define_constraints st inst = Inr st'"
  shows "keeps (solver st) (solver st')"
proof (cases "formulation st = ''MTZ''")
  case True
  with assms obtain total where
    arcs: "add_arc_constraints inst (inst_A inst)
             (st\<lparr>solver := Add (CEq total (LNum (inst_k inst - 1))) (solver st)\<rparr>) = Inr st'"
    by (auto simp: define_constraints_def define_constraints_mtz_def ebind_eq_Inr Let_def)
  from add_arc_constraints_keeps [OF arcs] have "keeps (Add (CEq total (LNum (inst_k inst - 1))) (solver st)) (solver st')"
    by simp
  with keeps_Add show ?thesis by (rule keeps_trans)
next
  case False
  with assms have "st' = st"
    by (auto simp: define_constraints_def define_constraints_scf_def
                   define_constraints_mcf_def split: if_splits)
  then show ?thesis by simp
qed

lemma define_objective_keeps:
  assumes "define_objective st inst = Inr st'"
  shows "keeps (solver st) (solver st')"
proof -
  from assms obtain total where "st' = st\<lparr>solver := Minimize total (solver st)\<rparr>"
    by (auto simp: define_objective_def ebind_eq_Inr split: if_splits)
  then show ?thesis by (simp add: keeps_Minimize)
qed

lemma solve_keeps: "keeps (solver st) (solver (snd (solve ev st inst)))"
  using keeps_Solve [of "solver st" ev]
  by (auto simp: solve_def Let_def split: prod.splits)

lemma ebindE:
  assumes "ebind r g = Inr y"
  obtains v where "r = Inr v" and "g v = Inr y"
  using assms by (auto simp: ebind_eq_Inr)

lemma formulation_print [simp]: "formulation (print l st) = formulation st"
  by (simp add: print_def)

lemma heap_print [simp]: "heap (print l st) = heap st"
  by (simp add: print_def)

lemma stdout_print [simp]: "stdout (print l st) = stdout st @ [l]"
  by (simp add: print_def)

lemma validate_solver: "validate st inst = Inr st' \<Longrightarrow> solver st' = solver st"
  unfolding validate_def Let_def
  by (elim ebindE) (auto split: if_splits elim!: ebindE)

lemma run_instance_unfold:
  "run_instance ev item st =
     ebind (define_variables (print (PRunning (fst item)) st) (heap st ! snd item)) (\<lambda>st1.
     ebind (define_constraints st1 (heap st ! snd item)) (\<lambda>st2.
     ebind (define_objective st2 (heap st ! snd item)) (\<lambda>st3.
       if fst (solve ev st3 (heap st ! snd item))
       then validate (snd (solve ev st3 (heap st ! snd item))) (heap st ! snd item)
       else Inr (snd (solve ev st3 (heap st ! snd item))))))"
  by (simp add: run_instance_def Let_def case_prod_unfold)

lemma run_instance_keeps:
  assumes "run_instance ev item st = Inr st'"
  shows "keeps (solver st) (solver st')"
proof -
  let ?inst = "heap st ! snd item"
  from assms obtain st1 st2 st3 where
    v: "define_variables (print (PRunning (fst item)) st) ?inst = Inr st1" and
    c: "define_constraints st1 ?inst = Inr st2" and
    ob: "define_objective st2 ?inst = Inr st3" and
    fin: "(if fst (solve ev st3 ?inst) then validate (snd (solve ev st3 ?inst)) ?inst
           else Inr (snd (solve ev st3 ?inst))) = Inr st'"
    unfolding run_instance_unfold by (elim ebindE)
  have upto1: "keeps (solver st) (solver st1)"
    using define_variables_keeps [OF v] by simp
  have upto3: "keeps (solver st) (solver st3)"
    using upto1 define_constraints_keeps [OF c]
      define_objective_keeps [OF ob] by (blast intro: keeps_trans)
  have "solver st' = solver (snd (solve ev st3 ?inst))"
    using fin by (auto split: if_splits dest: validate_solver)
  with solve_keeps [of st3 ev ?inst] upto3 show ?thesis
    by (auto intro: keeps_trans)
qed

lemma run_loop_keeps:
  "run_loop ev items st = Inr st' \<Longrightarrow> keeps (solver st) (solver st')"
proof (induction items arbitrary: st)
  case Nil
  then show ?case by simp
next
  case (Cons item items)
  from Cons.prems obtain mid where
    one: "run_instance ev item st = Inr mid" and rest: "run_loop ev items mid = Inr st'"
    by (auto simp: ebind_eq_Inr)
  from run_instance_keeps [OF one] Cons.IH [OF rest] show ?case by (rule keeps_trans)
qed

lemma not_isl_projr: "\<not> isl r \<Longrightarrow> r = Inr (projr r)"
  by (cases r) simp_all

text \<open>
  C3: in a run over two or more instances there is one solver object and nothing resets
  it. Let \<open>a\<close> be an instance processed earlier and \<open>b\<close> one processed later, any number
  of instances in between. Every model of the earlier formulation (after its variables,
  after its constraints, after its objective) is kept by the model that is formulated
  and solved for \<open>b\<close>: all its variables and constraints are still there. In
  particular \<^verbatim>\<open>define_variables\<close> for \<open>b\<close> keeps the solver's model; what it replaces is
  the three mappings.
\<close>

theorem C3_solver_accumulates:
  assumes a2: "define_variables (print (PRunning (fst a)) st) (heap st ! snd a) = Inr a2"
    and a3: "define_constraints a2 (heap st ! snd a) = Inr a3"
    and a4: "define_objective a3 (heap st ! snd a) = Inr a4"
    and loop: "run_loop ev (a # between) st = Inr st2"
    and b2: "define_variables (print (PRunning (fst b)) st2) (heap st2 ! snd b) = Inr b2"
    and b3: "define_constraints b2 (heap st2 ! snd b) = Inr b3"
    and b4: "define_objective b3 (heap st2 ! snd b) = Inr b4"
  shows "keeps (solver st) (solver a2) \<and> keeps (solver a2) (solver a3) \<and>
         keeps (solver a3) (solver a4) \<and> keeps (solver a4) (solver st2) \<and>
         keeps (solver st2) (solver b2) \<and> keeps (solver a4) (solver b4) \<and>
         keeps (solver a4) (solver (snd (solve ev b4 (heap st2 ! snd b))))"
proof -
  from loop obtain st1 where one: "run_instance ev a st = Inr st1"
    and rest: "run_loop ev between st1 = Inr st2"
    by (auto elim: ebindE)
  from one a2 a3 a4 have fin:
    "(if fst (solve ev a4 (heap st ! snd a))
      then validate (snd (solve ev a4 (heap st ! snd a))) (heap st ! snd a)
      else Inr (snd (solve ev a4 (heap st ! snd a)))) = Inr st1"
    by (simp add: run_instance_unfold)
  then have "solver st1 = solver (snd (solve ev a4 (heap st ! snd a)))"
    by (auto split: if_splits dest: validate_solver)
  then have a4_st1: "keeps (solver a4) (solver st1)"
    using solve_keeps [of a4 ev "heap st ! snd a"] by simp
  have a4_st2: "keeps (solver a4) (solver st2)"
    using a4_st1 run_loop_keeps [OF rest] by (rule keeps_trans)
  have st2_b2: "keeps (solver st2) (solver b2)"
    using define_variables_keeps [OF b2] by simp
  have b2_b4: "keeps (solver b2) (solver b4)"
    using define_constraints_keeps [OF b3] define_objective_keeps [OF b4]
    by (rule keeps_trans)
  have a4_b4: "keeps (solver a4) (solver b4)"
    using a4_st2 st2_b2 b2_b4 by (blast intro: keeps_trans)
  have solved: "keeps (solver a4) (solver (snd (solve ev b4 (heap st2 ! snd b))))"
    using a4_b4 solve_keeps by (rule keeps_trans)
  have "keeps (solver st) (solver a2)"
    using define_variables_keeps [OF a2] by simp
  with define_constraints_keeps [OF a3] define_objective_keeps [OF a4]
    a4_st2 st2_b2 a4_b4 solved
  show ?thesis by simp
qed

theorem C3_solver_accumulates_witness:
  "\<exists>a2 a3 a4 st2 b2 b3 b4.
     define_variables (print (PRunning ''01_0'') (loaded ''MTZ'')) (heap (loaded ''MTZ'') ! 0)
       = Inr a2 \<and>
     define_constraints a2 (heap (loaded ''MTZ'') ! 0) = Inr a3 \<and>
     define_objective a3 (heap (loaded ''MTZ'') ! 0) = Inr a4 \<and>
     run_loop (one_file INFEASIBLE []) [(''01_0'', 0)] (loaded ''MTZ'') = Inr st2 \<and>
     define_variables (print (PRunning ''01_1'') st2) (heap st2 ! 1) = Inr b2 \<and>
     define_constraints b2 (heap st2 ! 1) = Inr b3 \<and>
     define_objective b3 (heap st2 ! 1) = Inr b4 \<and>
     keeps (solver a4) (solver b4) \<and>
     length (variables (solver a4)) = 4 \<and> length (constraints (solver a4)) = 5 \<and>
     length (variables (solver b4)) = 8 \<and> length (constraints (solver b4)) = 10"
proof -
  define ev where "ev = one_file INFEASIBLE []"
  define st where "st = loaded ''MTZ''"
  define ia where "ia = heap st ! 0"
  define a2 where "a2 = projr (define_variables (print (PRunning ''01_0'') st) ia)"
  define a3 where "a3 = projr (define_constraints a2 ia)"
  define a4 where "a4 = projr (define_objective a3 ia)"
  define st2 where "st2 = projr (run_loop ev [(''01_0'', 0)] st)"
  define ib where "ib = heap st2 ! 1"
  define b2 where "b2 = projr (define_variables (print (PRunning ''01_1'') st2) ib)"
  define b3 where "b3 = projr (define_constraints b2 ib)"
  define b4 where "b4 = projr (define_objective b3 ib)"
  note defs = ev_def st_def ia_def a2_def a3_def a4_def st2_def ib_def b2_def b3_def b4_def
  have h1: "define_variables (print (PRunning (fst (''01_0'', 0::nat))) st)
              (heap st ! snd (''01_0'', 0::nat)) = Inr a2"
    unfolding defs fst_conv snd_conv by (rule not_isl_projr) code_simp
  have h2: "define_constraints a2 (heap st ! snd (''01_0'', 0::nat)) = Inr a3"
    unfolding defs fst_conv snd_conv by (rule not_isl_projr) code_simp
  have h3: "define_objective a3 (heap st ! snd (''01_0'', 0::nat)) = Inr a4"
    unfolding defs fst_conv snd_conv by (rule not_isl_projr) code_simp
  have h4: "run_loop ev ((''01_0'', 0) # []) st = Inr st2"
    unfolding defs by (rule not_isl_projr) code_simp
  have h5: "define_variables (print (PRunning (fst (''01_1'', 1::nat))) st2)
              (heap st2 ! snd (''01_1'', 1::nat)) = Inr b2"
    unfolding defs fst_conv snd_conv by (rule not_isl_projr) code_simp
  have h6: "define_constraints b2 (heap st2 ! snd (''01_1'', 1::nat)) = Inr b3"
    unfolding defs fst_conv snd_conv by (rule not_isl_projr) code_simp
  have h7: "define_objective b3 (heap st2 ! snd (''01_1'', 1::nat)) = Inr b4"
    unfolding defs fst_conv snd_conv by (rule not_isl_projr) code_simp
  have n1: "length (variables (solver a4)) = 4" unfolding defs by code_simp
  have n2: "length (constraints (solver a4)) = 5" unfolding defs by code_simp
  have n3: "length (variables (solver b4)) = 8" unfolding defs by code_simp
  have n4: "length (constraints (solver b4)) = 10" unfolding defs by code_simp
  from C3_solver_accumulates [OF h1 h2 h3 h4 h5 h6 h7]
  have "keeps (solver a4) (solver b4)" by simp
  with h1 h2 h3 h4 h5 h6 h7 n1 n2 n3 n4 show ?thesis
    unfolding ev_def st_def fst_conv snd_conv by blast
qed

section \<open>Solving and validating one instance\<close>

lemma define_variables_mtz_x_stdout:
  "define_variables_mtz_x arcs st = Inr st' \<Longrightarrow> stdout st' = stdout st"
proof (induction arcs arbitrary: st)
  case Nil
  then show ?case by simp
next
  case (Cons e arcs)
  obtain a b where e: "e = (a, b)" by (cases e)
  from Cons.prems obtain xm where xm: "self_x st = Some xm"
    by (auto simp: e split: prod.splits option.splits)
  let ?mid = "st\<lparr>solver := snd (IntVar 0 1 (x_name a b) (solver st)),
                  self_x := Some (xm((a, b) \<mapsto> fst (IntVar 0 1 (x_name a b) (solver st))))\<rparr>"
  from Cons.prems have "define_variables_mtz_x arcs ?mid = Inr st'"
    by (simp add: e xm split: prod.splits)
  then have "stdout st' = stdout ?mid" by (rule Cons.IH)
  then show ?case by simp
qed

lemma define_variables_mtz_u_stdout:
  "define_variables_mtz_u k vs st = Inr st' \<Longrightarrow> stdout st' = stdout st"
proof (induction vs arbitrary: st)
  case Nil
  then show ?case by simp
next
  case (Cons v vs)
  from Cons.prems obtain um where um: "self_u st = Some um"
    by (auto split: prod.splits option.splits)
  let ?mid = "st\<lparr>solver := snd (IntVar 1 k (u_name v) (solver st)),
                  self_u := Some (um(v \<mapsto> fst (IntVar 1 k (u_name v) (solver st))))\<rparr>"
  from Cons.prems have "define_variables_mtz_u k vs ?mid = Inr st'"
    by (simp add: um split: prod.splits)
  then have "stdout st' = stdout ?mid" by (rule Cons.IH)
  then show ?case by simp
qed

lemma define_variables_stdout:
  assumes "define_variables st inst = Inr st'"
  shows "stdout st' = stdout st"
proof -
  let ?st0 = "st\<lparr>self_x := Some Map.empty, self_u := Some Map.empty, self_f := Some Map.empty\<rparr>"
  show ?thesis
  proof (cases "formulation st = ''MTZ''")
    case True
    with assms have "define_variables_mtz ?st0 inst = Inr st'"
      by (simp add: define_variables_def)
    then obtain mid where x: "define_variables_mtz_x (inst_A inst) ?st0 = Inr mid"
      and u: "define_variables_mtz_u (inst_k inst) (inst_V inst) mid = Inr st'"
      by (auto simp: define_variables_mtz_def ebind_eq_Inr)
    from define_variables_mtz_x_stdout [OF x] define_variables_mtz_u_stdout [OF u]
    show ?thesis by simp
  next
    case False
    with assms have "st' = ?st0"
      by (auto simp: define_variables_def Let_def define_variables_scf_def
                     define_variables_mcf_def split: if_splits)
    then show ?thesis by simp
  qed
qed

lemma add_arc_constraints_stdout:
  "add_arc_constraints inst arcs st = Inr st' \<Longrightarrow> stdout st' = stdout st"
proof (induction arcs arbitrary: st)
  case Nil
  then show ?case by simp
next
  case (Cons e arcs)
  obtain i j where e: "e = (i, j)" by (cases e)
  from Cons.prems obtain s where mid: "add_arc_constraints inst arcs (st\<lparr>solver := s\<rparr>) = Inr st'"
    by (auto simp: e ebind_eq_Inr Let_def)
  from Cons.IH [OF mid] show ?case by simp
qed

lemma define_constraints_stdout:
  assumes "define_constraints st inst = Inr st'"
  shows "stdout st' = stdout st"
proof (cases "formulation st = ''MTZ''")
  case True
  with assms obtain s where
    arcs: "add_arc_constraints inst (inst_A inst) (st\<lparr>solver := s\<rparr>) = Inr st'"
    by (auto simp: define_constraints_def define_constraints_mtz_def ebind_eq_Inr Let_def)
  from add_arc_constraints_stdout [OF arcs] show ?thesis by simp
next
  case False
  with assms have "st' = st"
    by (auto simp: define_constraints_def define_constraints_scf_def
                   define_constraints_mcf_def split: if_splits)
  then show ?thesis by simp
qed

lemma define_objective_stdout:
  assumes "define_objective st inst = Inr st'"
  shows "stdout st' = stdout st"
proof -
  from assms obtain total where "st' = st\<lparr>solver := Minimize total (solver st)\<rparr>"
    by (auto simp: define_objective_def ebind_eq_Inr split: if_splits)
  then show ?thesis by simp
qed

lemma solve_returns_optimal:
  "fst (solve ev st inst) = (fst (env_Solve ev (solver st)) = OPTIMAL)"
  by (simp add: solve_def Solve_def Let_def case_prod_unfold)

lemma solve_not_optimal_stdout:
  "fst (env_Solve ev (solver st)) \<noteq> OPTIMAL \<Longrightarrow>
   stdout (snd (solve ev st inst)) =
     stdout st @ [PNotSolved (inst_name inst) (fst (env_Solve ev (solver st)))]"
  by (simp add: solve_def Solve_def Let_def case_prod_unfold)

lemma validate_stdout:
  "validate st inst = Inr st' \<Longrightarrow> \<exists>ls. stdout st' = stdout st @ PValidating # ls"
  unfolding validate_def Let_def
  by (elim ebindE) (auto split: if_splits elim!: ebindE)

text \<open>
  C9: once an instance is formulated, \<^verbatim>\<open>solve\<close> returns true exactly when the engine's
  status is \<open>OPTIMAL\<close>. On \<open>OPTIMAL\<close> the rest of the loop body is the call of
  \<^verbatim>\<open>validate\<close>, whose first output is its heading. On any other status \<^verbatim>\<open>validate\<close> is
  not called: the body prints the line that the instance is not solved, with the
  status, and nothing else after the line that announces the instance, it raises
  nothing, and the loop goes on with the next entry of the batch.
\<close>

theorem C9_validate_iff_optimal:
  assumes vars: "define_variables (print (PRunning (fst item)) st) (heap st ! snd item) = Inr s1"
    and cons: "define_constraints s1 (heap st ! snd item) = Inr s2"
    and obj: "define_objective s2 (heap st ! snd item) = Inr s3"
    and status: "status = fst (env_Solve ev (solver s3))"
    and s4: "s4 = snd (solve ev s3 (heap st ! snd item))"
  shows "fst (solve ev s3 (heap st ! snd item)) = (status = OPTIMAL) \<and>
         (status = OPTIMAL \<longrightarrow>
            run_instance ev item st = validate s4 (heap st ! snd item) \<and>
            (\<forall>st'. run_instance ev item st = Inr st' \<longrightarrow>
               (\<exists>ls. stdout st' = stdout s4 @ PValidating # ls))) \<and>
         (status \<noteq> OPTIMAL \<longrightarrow>
            run_instance ev item st = Inr s4 \<and>
            stdout s4 = stdout st @ [PRunning (fst item),
                                     PNotSolved (inst_name (heap st ! snd item)) status] \<and>
            run_loop ev (item # items) st = run_loop ev items s4)"
proof -
  let ?inst = "heap st ! snd item"
  have ret: "fst (solve ev s3 ?inst) = (status = OPTIMAL)"
    by (simp add: status solve_returns_optimal)
  have body: "run_instance ev item st = (if status = OPTIMAL then validate s4 ?inst else Inr s4)"
    using vars cons obj ret by (simp add: run_instance_unfold s4)
  have out3: "stdout s3 = stdout st @ [PRunning (fst item)]"
    using define_variables_stdout [OF vars] define_constraints_stdout [OF cons]
      define_objective_stdout [OF obj] by simp
  have opt: "\<exists>ls. stdout st' = stdout s4 @ PValidating # ls"
    if "status = OPTIMAL" "run_instance ev item st = Inr st'" for st'
    using that body validate_stdout [of s4 ?inst st'] by simp
  have bad: "stdout s4 = stdout st @ [PRunning (fst item), PNotSolved (inst_name ?inst) status]"
    if "status \<noteq> OPTIMAL"
    using that solve_not_optimal_stdout [of ev s3 ?inst] out3 by (simp add: status s4)
  have next_one: "run_loop ev (item # items) st = run_loop ev items s4" if "status \<noteq> OPTIMAL"
    using that body by simp
  show ?thesis
    using ret body opt bad next_one by simp
qed

theorem C9_validate_iff_optimal_witness:
  "\<exists>st s1 s2 s3 good bad.
     st = loaded ''MTZ'' \<and>
     define_variables (print (PRunning ''01_0'') st) (heap st ! 0) = Inr s1 \<and>
     define_constraints s1 (heap st ! 0) = Inr s2 \<and>
     define_objective s2 (heap st ! 0) = Inr s3 \<and>
     fst (env_Solve (one_file OPTIMAL [0]) (solver s3)) = OPTIMAL \<and>
     fst (solve (one_file OPTIMAL [0]) s3 (heap st ! 0)) \<and>
     run_instance (one_file OPTIMAL [0]) (''01_0'', 0) st = Inr good \<and>
     PValidating \<in> set (stdout good) \<and>
     fst (env_Solve (one_file INFEASIBLE []) (solver s3)) \<noteq> OPTIMAL \<and>
     \<not> fst (solve (one_file INFEASIBLE []) s3 (heap st ! 0)) \<and>
     run_instance (one_file INFEASIBLE []) (''01_0'', 0) st = Inr bad \<and>
     stdout bad = [PRunning ''01_0'', PNotSolved ''instance_01'' INFEASIBLE] \<and>
     run_loop (one_file INFEASIBLE []) [(''01_0'', 0), (''01_1'', 1)] st =
       run_loop (one_file INFEASIBLE []) [(''01_1'', 1)] bad"
proof -
  define st where "st = loaded ''MTZ''"
  define s1 where "s1 = projr (define_variables (print (PRunning ''01_0'') st) (heap st ! 0))"
  define s2 where "s2 = projr (define_constraints s1 (heap st ! 0))"
  define s3 where "s3 = projr (define_objective s2 (heap st ! 0))"
  define good where "good = projr (run_instance (one_file OPTIMAL [0]) (''01_0'', 0) st)"
  define bad where "bad = snd (solve (one_file INFEASIBLE []) s3 (heap st ! 0))"
  note defs = st_def s1_def s2_def s3_def good_def bad_def
  have h0: "st = loaded ''MTZ''"
    by (rule st_def)
  have h1: "define_variables (print (PRunning ''01_0'') st) (heap st ! 0) = Inr s1"
    unfolding defs by (rule not_isl_projr) code_simp
  have h2: "define_constraints s1 (heap st ! 0) = Inr s2"
    unfolding defs by (rule not_isl_projr) code_simp
  have h3: "define_objective s2 (heap st ! 0) = Inr s3"
    unfolding defs by (rule not_isl_projr) code_simp
  have g: "run_instance (one_file OPTIMAL [0]) (''01_0'', 0) st = Inr good"
    unfolding defs by (rule not_isl_projr) code_simp
  have e1: "fst (env_Solve (one_file OPTIMAL [0]) (solver s3)) = OPTIMAL"
    by (simp add: one_file_def)
  have e2: "fst (env_Solve (one_file INFEASIBLE []) (solver s3)) = INFEASIBLE"
    by (simp add: one_file_def)
  have e3: "fst (env_Solve (one_file INFEASIBLE []) (solver s3)) \<noteq> OPTIMAL"
    by (simp add: e2)
  have nm: "inst_name (heap st ! 0) = ''instance_01''" and out: "stdout st = []"
    unfolding defs by code_simp+
  note inst = C9_validate_iff_optimal [where item = "(''01_0'', 0)" and st = st,
      unfolded fst_conv snd_conv, OF h1 h2 h3]
  from inst [OF e1 [symmetric] refl, of "[]"]
  have g1: "fst (solve (one_file OPTIMAL [0]) s3 (heap st ! 0))"
    and g2: "\<exists>ls. stdout good =
               stdout (snd (solve (one_file OPTIMAL [0]) s3 (heap st ! 0))) @ PValidating # ls"
    using g by simp_all
  from g2 have g3: "PValidating \<in> set (stdout good)"
    by auto
  from inst [OF e2 [symmetric] bad_def, of "[(''01_1'', 1)]"]
  have b1: "\<not> fst (solve (one_file INFEASIBLE []) s3 (heap st ! 0))"
    and b2: "run_instance (one_file INFEASIBLE []) (''01_0'', 0) st = Inr bad"
    and b3: "stdout bad = [PRunning ''01_0'', PNotSolved ''instance_01'' INFEASIBLE]"
    and b4: "run_loop (one_file INFEASIBLE []) [(''01_0'', 0), (''01_1'', 1)] st =
               run_loop (one_file INFEASIBLE []) [(''01_1'', 1)] bad"
    by (simp_all add: nm out del: run_loop.simps)
  show ?thesis
    by (intro exI [of _ st] exI [of _ s1] exI [of _ s2] exI [of _ s3] exI [of _ good]
          exI [of _ bad] conjI)
       (fact h0 h1 h2 h3 e1 g1 g g3 e3 b1 b2 b3 b4)+
qed

end
